theory Spec2Isabelle
  imports Complex_Main "HOL-Library.AList"
begin

section \<open>Grade of finality\<close>

text \<open>
  Modelled from the spec: the type \<open>gof.GradeOfFinality\<close>, which the gadget imports and
  whose declaration is missing. Section 3 gives it as the ordered enum
  \<open>{None = 0, Low = 1, Medium = 2, High = 3}\<close>, a total order whose comparisons use the
  integer rank. The zero value of the Go type is \<open>gof.None\<close>.
\<close>

datatype GradeOfFinality = gof_None | gof_Low | gof_Medium | gof_High

fun rank :: "GradeOfFinality \<Rightarrow> nat" where
  "rank gof_None = 0"
| "rank gof_Low = 1"
| "rank gof_Medium = 2"
| "rank gof_High = 3"

instantiation GradeOfFinality :: linorder
begin

definition less_eq_GradeOfFinality :: "GradeOfFinality \<Rightarrow> GradeOfFinality \<Rightarrow> bool" where
  "less_eq_GradeOfFinality a b = (rank a \<le> rank b)"

definition less_GradeOfFinality :: "GradeOfFinality \<Rightarrow> GradeOfFinality \<Rightarrow> bool" where
  "less_GradeOfFinality a b = (rank a < rank b)"

instance
proof
  fix x y z :: GradeOfFinality
  show "(x < y) = (x \<le> y \<and> \<not> y \<le> x)"
    by (auto simp: less_eq_GradeOfFinality_def less_GradeOfFinality_def)
  show "x \<le> x"
    by (simp add: less_eq_GradeOfFinality_def)
  show "x \<le> y \<Longrightarrow> y \<le> z \<Longrightarrow> x \<le> z"
    by (simp add: less_eq_GradeOfFinality_def)
  show "x \<le> y \<Longrightarrow> y \<le> x \<Longrightarrow> x = y"
    by (cases x; cases y) (simp_all add: less_eq_GradeOfFinality_def)
  show "x \<le> y \<or> y \<le> x"
    by (auto simp: less_eq_GradeOfFinality_def)
qed

end

lemma rank_le_3: "rank g \<le> 3"
  by (cases g) simp_all

lemma gof_None_least: "gof_None \<le> g"
  by (simp add: less_eq_GradeOfFinality_def)

section \<open>Threshold translation (finality\_gadget.go, lines 27--60)\<close>

text \<open>
  The approval weight is a \<open>float64\<close>. The translations only compare it with three
  constants, so a weight is modelled by a real number and the constants by the decimals
  the source writes. The rounding of a decimal literal to \<open>float64\<close>, which the
  compiler applies alike to the three constants and to a weight written as a literal, is
  not modelled; a NaN weight (every comparison false, so the \<open>default\<close> branch) has
  no counterpart in the model.
\<close>

definition lowLowerBound :: real where
  "lowLowerBound = 0.2"

definition mediumLowerBound :: real where
  "mediumLowerBound = 0.3"

definition highLowerBound :: real where
  "highLowerBound = 0.5"

type_synonym TransactionID = nat

datatype BranchID = NewBranchID TransactionID

fun BranchID_TransactionID :: "BranchID \<Rightarrow> TransactionID" where
  "BranchID_TransactionID (NewBranchID txID) = txID"

definition DefaultBranchGoFTranslation :: "BranchID \<Rightarrow> real \<Rightarrow> GradeOfFinality" where
  "DefaultBranchGoFTranslation branchID aw =
     (if aw \<ge> lowLowerBound \<and> aw < mediumLowerBound then gof_Low
      else if aw \<ge> mediumLowerBound \<and> aw < highLowerBound then gof_Medium
      else if aw \<ge> highLowerBound then gof_High
      else gof_None)"

definition DefaultMessageGoFTranslation :: "real \<Rightarrow> GradeOfFinality" where
  "DefaultMessageGoFTranslation aw =
     (if aw \<ge> lowLowerBound \<and> aw < mediumLowerBound then gof_Low
      else if aw \<ge> mediumLowerBound \<and> aw < highLowerBound then gof_Medium
      else if aw \<ge> highLowerBound then gof_High
      else gof_None)"

text \<open>
  The bands as section 4.1 of the specification words them, written independently of the
  source's switch: \<open>[0.2, 0.3)\<close> is Low, \<open>[0.3, 0.5)\<close> is Medium, \<open>0.5\<close> and above
  is High, anything else is None.
\<close>

definition spec_translate :: "real \<Rightarrow> GradeOfFinality" where
  "spec_translate w =
     (if w < 0.2 then gof_None
      else if w < 0.3 then gof_Low
      else if w < 0.5 then gof_Medium
      else gof_High)"

section \<open>Data model\<close>

text \<open>
  Modelled from the spec: the storage of the tangle and of the ledger state, which the
  gadget reads and writes through accessors whose code is missing. Section 3 gives the
  metadata records and their fields, section 6 the accessors (\<open>resolveMarker\<close>,
  \<open>messageMetadata\<close>, \<open>strongParents\<close>, \<open>attachments\<close>,
  \<open>transactionMetadata\<close>, \<open>outputsOf\<close>, \<open>outputMetadata\<close>,
  \<open>consumersOf\<close>). A cached object that does not exist is a lookup that returns
  \<open>None\<close>; \<open>Consume\<close> on it runs nothing. The three metadata stores, the only
  ones the gadget writes, are association lists read with \<open>map_of\<close> and written with
  \<open>AList.update\<close> at a key that is present. The marker index returns
  \<open>EmptyMessageID\<close> for a marker it does not know, as \<open>IsMarkerConfirmed\<close> tests.
  A branch identifier is made from a transaction identifier by \<open>NewBranchID\<close> and
  gives it back by \<open>TransactionID()\<close>.
\<close>

type_synonym MessageID = nat
type_synonym OutputID = nat
type_synonym Marker = "nat \<times> nat"

definition EmptyMessageID :: MessageID where
  "EmptyMessageID = 0"

record MessageMetadata =
  msg_gradeOfFinality :: GradeOfFinality
  IsPastMarker :: bool

record Message =
  StrongParents :: "MessageID list"
  Payload :: "TransactionID option"

record TransactionMetadata =
  tx_gradeOfFinality :: GradeOfFinality
  tx_BranchID :: BranchID

record OutputMetadata =
  out_gradeOfFinality :: GradeOfFinality

record Transaction =
  Outputs :: "OutputID list"

record Tangle =
  MarkersManager_MessageID :: "Marker \<Rightarrow> MessageID"
  Storage_Message :: "MessageID \<rightharpoonup> Message"
  Storage_MessageMetadata :: "(MessageID \<times> MessageMetadata) list"
  Storage_Attachments :: "TransactionID \<Rightarrow> MessageID list"
  LedgerState_TransactionMetadata :: "(TransactionID \<times> TransactionMetadata) list"
  LedgerState_Transaction :: "TransactionID \<rightharpoonup> Transaction"
  LedgerState_OutputMetadata :: "(OutputID \<times> OutputMetadata) list"
  LedgerState_Consumers :: "OutputID \<Rightarrow> TransactionID list"
  LedgerState_TransactionConflicting :: "TransactionID \<Rightarrow> bool"
  WeightOfBranch :: "BranchID \<Rightarrow> real"

record Options =
  BranchTransFunc :: "BranchID \<Rightarrow> real \<Rightarrow> GradeOfFinality"
  MessageTransFunc :: "real \<Rightarrow> GradeOfFinality"
  BranchGoFReachedLevel :: GradeOfFinality
  MessageGoFReachedLevel :: GradeOfFinality

definition defaultOpts :: Options where
  "defaultOpts =
     \<lparr>BranchTransFunc = DefaultBranchGoFTranslation,
      MessageTransFunc = DefaultMessageGoFTranslation,
      BranchGoFReachedLevel = gof_High,
      MessageGoFReachedLevel = gof_High\<rparr>"

datatype Event =
  MessageConfirmed MessageID
| TransactionConfirmed TransactionID
| BranchConfirmed BranchID

datatype error = ErrUnsupportedBranchType

text \<open>
  Modelled from the spec: the method \<open>SetGradeOfFinality\<close> of the message,
  transaction and output metadata, whose code is missing. Section 5: "every mutation
  (SetGradeOfFinality) must be an atomic compare-and-raise operation", of which "only the
  higher must win", reporting "did change" truthfully. Section 4.2: "attempt to raise the
  message's GoF to candidate GoF; if the value did not change (already \<ge> candidate),
  stop". The result is the value stored afterwards and the \<open>modified\<close> flag. The
  gadget calls the same method on output metadata and drops the flag (lines 324 and 368).
\<close>

definition SetGradeOfFinality :: "GradeOfFinality \<Rightarrow> GradeOfFinality \<Rightarrow> GradeOfFinality \<times> bool" where
  "SetGradeOfFinality current gradeOfFinality =
     (if current < gradeOfFinality then (gradeOfFinality, True) else (current, False))"

text \<open>
  Modelled from the spec: the walker, a worklist of the hive.go library whose code is
  missing. Section 4.6: \<open>push\<close> appends an item unless it was pushed before in this
  traversal, \<open>hasNext\<close> tests for a pending item, \<open>next\<close> pops the oldest pending
  item.
\<close>

record 'a Walker =
  stack :: "'a list"
  pushedElements :: "'a list"

definition walker_New :: "'a Walker" where
  "walker_New = \<lparr>stack = [], pushedElements = []\<rparr>"

definition Push :: "'a \<Rightarrow> 'a Walker \<Rightarrow> 'a Walker" where
  "Push x w =
     (if x \<in> set (pushedElements w) then w
      else w\<lparr>stack := stack w @ [x], pushedElements := x # pushedElements w\<rparr>)"

section \<open>Query surface (finality\_gadget.go, lines 161--211)\<close>

definition IsMarkerConfirmed :: "Options \<Rightarrow> Tangle \<Rightarrow> Marker \<Rightarrow> bool" where
  "IsMarkerConfirmed opts t marker =
     (let messageID = MarkersManager_MessageID t marker in
      if messageID = EmptyMessageID then False
      else (case map_of (Storage_MessageMetadata t) messageID of
              None \<Rightarrow> False
            | Some messageMetadata \<Rightarrow>
                msg_gradeOfFinality messageMetadata \<ge> MessageGoFReachedLevel opts))"


definition IsTransactionConfirmed :: "Options \<Rightarrow> Tangle \<Rightarrow> TransactionID \<Rightarrow> bool" where
  "IsTransactionConfirmed opts t transactionID =
     (case map_of (LedgerState_TransactionMetadata t) transactionID of
        None \<Rightarrow> False
      | Some transactionMetadata \<Rightarrow>
          tx_gradeOfFinality transactionMetadata \<ge> MessageGoFReachedLevel opts)"

definition IsOutputConfirmed :: "Options \<Rightarrow> Tangle \<Rightarrow> OutputID \<Rightarrow> bool" where
  "IsOutputConfirmed opts t outputID =
     (case map_of (LedgerState_OutputMetadata t) outputID of
        None \<Rightarrow> False
      | Some outputMetadata \<Rightarrow>
          out_gradeOfFinality outputMetadata \<ge> BranchGoFReachedLevel opts)"

section \<open>Payload cascade (finality\_gadget.go, lines 350--386)\<close>

definition setOutputGoF :: "GradeOfFinality \<Rightarrow> OutputID \<Rightarrow> Tangle \<Rightarrow> Tangle" where
  "setOutputGoF gradeOfFinality outputID t =
     (case map_of (LedgerState_OutputMetadata t) outputID of
        None \<Rightarrow> t
      | Some outputMetadata \<Rightarrow>
          (case SetGradeOfFinality (out_gradeOfFinality outputMetadata) gradeOfFinality of
             (stored, modified) \<Rightarrow>
               if \<not> modified then t
               else t\<lparr>LedgerState_OutputMetadata :=
                        AList.update outputID (outputMetadata\<lparr>out_gradeOfFinality := stored\<rparr>)
                          (LedgerState_OutputMetadata t)\<rparr>))"

definition setPayloadGoF :: "Options \<Rightarrow> MessageID \<Rightarrow> GradeOfFinality \<Rightarrow> Tangle \<Rightarrow> Tangle \<times> Event list" where
  "setPayloadGoF opts messageID gradeOfFinality t =
     (case Storage_Message t messageID of
        None \<Rightarrow> (t, [])
      | Some message \<Rightarrow>
          (case Payload message of
             None \<Rightarrow> (t, [])
           | Some transactionID \<Rightarrow>
               (case map_of (LedgerState_TransactionMetadata t) transactionID of
                  None \<Rightarrow> (t, [])
                | Some transactionMetadata \<Rightarrow>
                    (let gradeOfFinality' =
                           (if LedgerState_TransactionConflicting t transactionID
                            then BranchTransFunc opts (NewBranchID transactionID)
                                   (WeightOfBranch t (NewBranchID transactionID))
                            else gradeOfFinality)
                     in case SetGradeOfFinality (tx_gradeOfFinality transactionMetadata) gradeOfFinality' of
                          (stored, modified) \<Rightarrow>
                            if \<not> modified then (t, [])
                            else
                              (let t1 = t\<lparr>LedgerState_TransactionMetadata :=
                                           AList.update transactionID
                                             (transactionMetadata\<lparr>tx_gradeOfFinality := stored\<rparr>)
                                             (LedgerState_TransactionMetadata t)\<rparr>;
                                   t2 = (case LedgerState_Transaction t1 transactionID of
                                           None \<Rightarrow> t1
                                         | Some transaction \<Rightarrow>
                                             fold (setOutputGoF gradeOfFinality') (Outputs transaction) t1)
                               in (t2, if gradeOfFinality' \<ge> BranchGoFReachedLevel opts
                                       then [TransactionConfirmed transactionID] else []))))))"

section \<open>Marker propagation (finality\_gadget.go, lines 213--261 and 334--348)\<close>

definition setMessageGoF ::
  "Options \<Rightarrow> MessageID \<Rightarrow> MessageMetadata \<Rightarrow> GradeOfFinality \<Rightarrow> Tangle \<Rightarrow> Tangle \<times> bool \<times> Event list" where
  "setMessageGoF opts messageID messageMetadata gradeOfFinality t =
     (case SetGradeOfFinality (msg_gradeOfFinality messageMetadata) gradeOfFinality of
        (stored, modified) \<Rightarrow>
          if \<not> modified then (t, False, [])
          else
            (let t1 = t\<lparr>Storage_MessageMetadata :=
                         AList.update messageID (messageMetadata\<lparr>msg_gradeOfFinality := stored\<rparr>)
                           (Storage_MessageMetadata t)\<rparr>
             in case setPayloadGoF opts messageID gradeOfFinality t1 of
                  (t2, evs) \<Rightarrow>
                    (t2, True,
                     evs @ (if gradeOfFinality \<ge> MessageGoFReachedLevel opts
                            then [MessageConfirmed messageID] else []))))"

definition propagateGoF ::
  "Options \<Rightarrow> GradeOfFinality \<Rightarrow> MessageID \<Rightarrow> Message \<Rightarrow> MessageMetadata \<Rightarrow> Tangle \<Rightarrow> MessageID Walker
     \<Rightarrow> Tangle \<times> MessageID Walker \<times> Event list" where
  "propagateGoF opts gradeOfFinality messageID message messageMetadata t w =
     (if IsPastMarker messageMetadata \<and> msg_gradeOfFinality messageMetadata \<ge> gradeOfFinality
      then (t, w, [])
      else
        (case setMessageGoF opts messageID messageMetadata gradeOfFinality t of
           (t', modified, evs) \<Rightarrow>
             if \<not> modified then (t', w, evs)
             else (t', fold Push (StrongParents message) w, evs)))"

text \<open>
  Modelled from the spec: \<open>WalkMessageAndMetadata\<close> of the tangle's utilities, whose
  code is missing. Section 4.2, step 4: a worklist walk from the entry point that, at
  each popped message identifier, runs the callback when both the message and its
  metadata exist and otherwise runs nothing. \<open>ComputeIfTransaction\<close>, missing too,
  runs its callback on the transaction a stored message carries as payload, if any.
\<close>

definition WalkMessageAndMetadata_step ::
  "Options \<Rightarrow> GradeOfFinality \<Rightarrow> MessageID \<Rightarrow> Tangle \<Rightarrow> MessageID Walker
     \<Rightarrow> Tangle \<times> MessageID Walker \<times> Event list" where
  "WalkMessageAndMetadata_step opts gradeOfFinality messageID t w =
     (case Storage_Message t messageID of
        None \<Rightarrow> (t, w, [])
      | Some message \<Rightarrow>
          (case map_of (Storage_MessageMetadata t) messageID of
             None \<Rightarrow> (t, w, [])
           | Some messageMetadata \<Rightarrow>
               propagateGoF opts gradeOfFinality messageID message messageMetadata t w))"

text \<open>
  Both walks end: a step that changes anything raises the stored grade of one message
  (of one transaction, on the branch side), and a step that changes nothing only pops the
  worklist. The measures are the total distance of the stored grades from High, then the
  length of the worklist.
\<close>

definition msg_deficit :: "Tangle \<Rightarrow> nat" where
  "msg_deficit t = (\<Sum>p\<leftarrow>Storage_MessageMetadata t. 3 - rank (msg_gradeOfFinality (snd p)))"

definition tx_deficit :: "Tangle \<Rightarrow> nat" where
  "tx_deficit t = (\<Sum>p\<leftarrow>LedgerState_TransactionMetadata t. 3 - rank (tx_gradeOfFinality (snd p)))"

lemma deficit_update_less:
  "map_of ps k = Some v \<Longrightarrow> f v' < f v \<Longrightarrow>
   (\<Sum>p\<leftarrow>AList.update k v' ps. (f (snd p) :: nat)) < (\<Sum>p\<leftarrow>ps. f (snd p))"
  by (induction ps) (auto split: if_splits)

lemma setOutputGoF_msgs [simp]:
  "Storage_MessageMetadata (setOutputGoF g outputID t) = Storage_MessageMetadata t"
  by (simp add: setOutputGoF_def split: option.splits prod.splits)

lemma fold_setOutputGoF_msgs [simp]:
  "Storage_MessageMetadata (fold (setOutputGoF g) os t) = Storage_MessageMetadata t"
  by (induction os arbitrary: t) simp_all

lemma setPayloadGoF_msgs:
  "Storage_MessageMetadata (fst (setPayloadGoF opts messageID g t)) = Storage_MessageMetadata t"
  by (simp add: setPayloadGoF_def Let_def split: option.splits prod.splits)

lemma SetGradeOfFinality_modified:
  "SetGradeOfFinality c g = (stored, True) \<Longrightarrow> stored = g \<and> c < g"
  by (auto simp: SetGradeOfFinality_def split: if_splits)

lemma SetGradeOfFinality_unmodified:
  "SetGradeOfFinality c g = (stored, False) \<Longrightarrow> stored = c \<and> g \<le> c"
  by (auto simp: SetGradeOfFinality_def split: if_splits)

lemma rank_deficit_less: "c < g \<Longrightarrow> 3 - rank g < 3 - rank (c::GradeOfFinality)"
  using rank_le_3 [of g] by (simp add: less_GradeOfFinality_def)

lemma WalkMessageAndMetadata_step_measure:
  assumes "WalkMessageAndMetadata_step opts g messageID t w = (t', w', evs)"
  shows "msg_deficit t' < msg_deficit t \<or> (t' = t \<and> w' = w)"
proof (cases "Storage_Message t messageID")
  case None
  with assms show ?thesis by (simp add: WalkMessageAndMetadata_step_def)
next
  case (Some message)
  show ?thesis
  proof (cases "map_of (Storage_MessageMetadata t) messageID")
    case None
    with Some assms show ?thesis by (simp add: WalkMessageAndMetadata_step_def)
  next
    case (Some md)
    note md = this
    show ?thesis
    proof (cases "msg_gradeOfFinality md < g")
      case False
      with assms \<open>Storage_Message t messageID = Some message\<close> md show ?thesis
        by (auto simp: WalkMessageAndMetadata_step_def propagateGoF_def setMessageGoF_def
            SetGradeOfFinality_def split: if_splits)
    next
      case True
      let ?t1 = "t\<lparr>Storage_MessageMetadata :=
                    AList.update messageID (md\<lparr>msg_gradeOfFinality := g\<rparr>) (Storage_MessageMetadata t)\<rparr>"
      from assms \<open>Storage_Message t messageID = Some message\<close> md True
      have "t' = fst (setPayloadGoF opts messageID g ?t1)"
        by (auto simp: WalkMessageAndMetadata_step_def propagateGoF_def setMessageGoF_def
            SetGradeOfFinality_def split: if_splits prod.splits)
      then have "Storage_MessageMetadata t' = Storage_MessageMetadata ?t1"
        by (simp add: setPayloadGoF_msgs)
      then have "msg_deficit t' < msg_deficit t"
        unfolding msg_deficit_def
        using deficit_update_less [OF md, of "\<lambda>v. 3 - rank (msg_gradeOfFinality v)" "md\<lparr>msg_gradeOfFinality := g\<rparr>"]
          rank_deficit_less [OF True]
        by simp
      then show ?thesis ..
    qed
  qed
qed

function walkMessages ::
  "Options \<Rightarrow> GradeOfFinality \<Rightarrow> Tangle \<Rightarrow> MessageID Walker \<Rightarrow> Event list \<Rightarrow> Tangle \<times> Event list" where
  "walkMessages opts gradeOfFinality t w evs =
     (case stack w of
        [] \<Rightarrow> (t, evs)
      | messageID # rest \<Rightarrow>
          (case WalkMessageAndMetadata_step opts gradeOfFinality messageID t (w\<lparr>stack := rest\<rparr>) of
             (t', w', evs') \<Rightarrow> walkMessages opts gradeOfFinality t' w' (evs @ evs')))"
  by pat_completeness auto
termination
  apply (relation "measures [\<lambda>(opts, g, t, w, evs). msg_deficit t, \<lambda>(opts, g, t, w, evs). length (stack w)]")
   apply simp
  apply (auto dest!: WalkMessageAndMetadata_step_measure [OF sym])
  done

declare walkMessages.simps [simp del]

definition HandleMarker :: "Options \<Rightarrow> Tangle \<Rightarrow> Marker \<Rightarrow> real \<Rightarrow> Tangle \<times> Event list \<times> error option" where
  "HandleMarker opts t marker aw =
     (let gradeOfFinality = MessageTransFunc opts aw in
      if gradeOfFinality = gof_None then (t, [], None)
      else
        (let messageID = MarkersManager_MessageID t marker;
             gofIncreased =
               (case map_of (Storage_MessageMetadata t) messageID of
                  None \<Rightarrow> False
                | Some messageMetadata \<Rightarrow> gradeOfFinality > msg_gradeOfFinality messageMetadata)
         in if \<not> gofIncreased then (t, [], None)
            else
              (case walkMessages opts gradeOfFinality t (Push messageID walker_New) [] of
                 (t', evs) \<Rightarrow> (t', evs, None))))"

section \<open>Branch propagation (finality\_gadget.go, lines 263--332)\<close>

definition pushConsumer ::
  "TransactionID \<Rightarrow> TransactionID list \<times> TransactionID Walker \<Rightarrow> TransactionID list \<times> TransactionID Walker" where
  "pushConsumer consumerTx cw =
     (case cw of
        (consumerTxs, txGoFPropWalker) \<Rightarrow>
          if consumerTx \<in> set consumerTxs then (consumerTxs, txGoFPropWalker)
          else (consumerTx # consumerTxs, Push consumerTx txGoFPropWalker))"

definition adjustOutputGoF ::
  "GradeOfFinality \<Rightarrow> OutputID \<Rightarrow> Tangle \<times> TransactionID list \<times> TransactionID Walker
     \<Rightarrow> Tangle \<times> TransactionID list \<times> TransactionID Walker" where
  "adjustOutputGoF newGradeOfFinality outputID s =
     (case s of
        (t, cw) \<Rightarrow>
          (case map_of (LedgerState_OutputMetadata t) outputID of
             None \<Rightarrow> (t, cw)
           | Some outputMetadata \<Rightarrow>
               (setOutputGoF newGradeOfFinality outputID t,
                fold pushConsumer (LedgerState_Consumers t outputID) cw)))"

definition maxAttachmentGoF :: "Tangle \<Rightarrow> TransactionID \<Rightarrow> GradeOfFinality" where
  "maxAttachmentGoF t transactionID =
     fold (\<lambda>messageID m.
             case map_of (Storage_MessageMetadata t) messageID of
               None \<Rightarrow> m
             | Some messageMetadata \<Rightarrow>
                 if m < msg_gradeOfFinality messageMetadata then msg_gradeOfFinality messageMetadata
                 else m)
          (Storage_Attachments t transactionID) gof_None"

definition forwardPropagateBranchGoFToTxs ::
  "Options \<Rightarrow> TransactionID \<Rightarrow> BranchID \<Rightarrow> GradeOfFinality \<Rightarrow> Tangle \<Rightarrow> TransactionID Walker
     \<Rightarrow> Tangle \<times> TransactionID Walker \<times> Event list" where
  "forwardPropagateBranchGoFToTxs opts candidateTxID candidateBranchID newGradeOfFinality t txGoFPropWalker =
     (case map_of (LedgerState_TransactionMetadata t) candidateTxID of
        None \<Rightarrow> (t, txGoFPropWalker, [])
      | Some transactionMetadata \<Rightarrow>
          if tx_BranchID transactionMetadata \<noteq> candidateBranchID then (t, txGoFPropWalker, [])
          else if maxAttachmentGoF t candidateTxID < newGradeOfFinality then (t, txGoFPropWalker, [])
          else
            (case SetGradeOfFinality (tx_gradeOfFinality transactionMetadata) newGradeOfFinality of
               (stored, modified) \<Rightarrow>
                 if \<not> modified then (t, txGoFPropWalker, [])
                 else
                   (let t1 = t\<lparr>LedgerState_TransactionMetadata :=
                                AList.update candidateTxID
                                  (transactionMetadata\<lparr>tx_gradeOfFinality := stored\<rparr>)
                                  (LedgerState_TransactionMetadata t)\<rparr>;
                        evs = (if stored \<ge> BranchGoFReachedLevel opts
                               then [TransactionConfirmed candidateTxID] else [])
                    in case LedgerState_Transaction t1 candidateTxID of
                         None \<Rightarrow> (t1, txGoFPropWalker, evs)
                       | Some transaction \<Rightarrow>
                           (case fold (adjustOutputGoF newGradeOfFinality) (Outputs transaction)
                                   (t1, [], txGoFPropWalker) of
                              (t2, consumerTxs, w2) \<Rightarrow> (t2, w2, evs)))))"

lemma setOutputGoF_txs [simp]:
  "LedgerState_TransactionMetadata (setOutputGoF g outputID t) = LedgerState_TransactionMetadata t"
  by (simp add: setOutputGoF_def split: option.splits prod.splits)

lemma adjustOutputGoF_txs:
  "LedgerState_TransactionMetadata (fst (adjustOutputGoF g outputID s)) = LedgerState_TransactionMetadata (fst s)"
  by (cases s) (simp add: adjustOutputGoF_def split: option.splits)

lemma fold_adjustOutputGoF_txs:
  "LedgerState_TransactionMetadata (fst (fold (adjustOutputGoF g) os s)) = LedgerState_TransactionMetadata (fst s)"
  by (induction os arbitrary: s) (simp_all add: adjustOutputGoF_txs)

lemma forwardPropagateBranchGoFToTxs_measure:
  assumes "forwardPropagateBranchGoFToTxs opts txID branchID g t w = (t', w', evs)"
  shows "tx_deficit t' < tx_deficit t \<or> (t' = t \<and> w' = w)"
proof (cases "map_of (LedgerState_TransactionMetadata t) txID")
  case None
  with assms show ?thesis by (simp add: forwardPropagateBranchGoFToTxs_def)
next
  case (Some tm)
  show ?thesis
  proof (cases "tx_BranchID tm = branchID \<and> \<not> maxAttachmentGoF t txID < g \<and> tx_gradeOfFinality tm < g")
    case False
    with assms Some show ?thesis
      by (auto simp: forwardPropagateBranchGoFToTxs_def SetGradeOfFinality_def split: if_splits)
  next
    case True
    let ?t1 = "t\<lparr>LedgerState_TransactionMetadata :=
                  AList.update txID (tm\<lparr>tx_gradeOfFinality := g\<rparr>) (LedgerState_TransactionMetadata t)\<rparr>"
    from assms Some True
    have "LedgerState_TransactionMetadata t' = LedgerState_TransactionMetadata ?t1"
      using fold_adjustOutputGoF_txs [of g _ "(?t1, [], w)"]
      by (auto simp: forwardPropagateBranchGoFToTxs_def SetGradeOfFinality_def Let_def
          split: if_splits option.splits prod.splits) (metis fst_conv)+
    then have "tx_deficit t' < tx_deficit t"
      unfolding tx_deficit_def
      using deficit_update_less [OF Some, of "\<lambda>v. 3 - rank (tx_gradeOfFinality v)" "tm\<lparr>tx_gradeOfFinality := g\<rparr>"]
        rank_deficit_less [of "tx_gradeOfFinality tm" g] True
      by simp
    then show ?thesis ..
  qed
qed

function walkBranch ::
  "Options \<Rightarrow> BranchID \<Rightarrow> GradeOfFinality \<Rightarrow> Tangle \<Rightarrow> TransactionID Walker \<Rightarrow> Event list
     \<Rightarrow> Tangle \<times> Event list" where
  "walkBranch opts branchID newGradeOfFinality t txGoFPropWalker evs =
     (case stack txGoFPropWalker of
        [] \<Rightarrow> (t, evs)
      | candidateTxID # rest \<Rightarrow>
          (case forwardPropagateBranchGoFToTxs opts candidateTxID branchID newGradeOfFinality t
                  (txGoFPropWalker\<lparr>stack := rest\<rparr>) of
             (t', w', evs') \<Rightarrow> walkBranch opts branchID newGradeOfFinality t' w' (evs @ evs')))"
  by pat_completeness auto
termination
  apply (relation "measures [\<lambda>(opts, b, g, t, w, evs). tx_deficit t, \<lambda>(opts, b, g, t, w, evs). length (stack w)]")
   apply simp
  apply (auto dest!: forwardPropagateBranchGoFToTxs_measure [OF sym])
  done

declare walkBranch.simps [simp del]

definition HandleBranch :: "Options \<Rightarrow> Tangle \<Rightarrow> BranchID \<Rightarrow> real \<Rightarrow> Tangle \<times> Event list \<times> error option" where
  "HandleBranch opts t branchID aw =
     (let newGradeOfFinality = BranchTransFunc opts branchID aw in
      case walkBranch opts branchID newGradeOfFinality t
             (Push (BranchID_TransactionID branchID) walker_New) [] of
        (t', evs) \<Rightarrow>
          (t',
           evs @ (if newGradeOfFinality \<ge> BranchGoFReachedLevel opts then [BranchConfirmed branchID] else []),
           None))"

section \<open>An example state\<close>

text \<open>
  A small tangle used to run the operations on concrete inputs. Marker \<open>(1, 1)\<close> is
  message 2, whose strong parent, message 1, carries transaction 10. Transaction 10
  creates outputs 100 and 101; output 100 is spent by transaction 11, which sits in a
  branch of its own. Every other marker is unresolved.
\<close>

definition example_tangle :: Tangle where
  "example_tangle =
     \<lparr>MarkersManager_MessageID = (\<lambda>m. if m = (1, 1) then 2 else EmptyMessageID),
      Storage_Message =
        [1 \<mapsto> \<lparr>StrongParents = [], Payload = Some 10\<rparr>,
         2 \<mapsto> \<lparr>StrongParents = [1], Payload = None\<rparr>],
      Storage_MessageMetadata =
        [(1, \<lparr>msg_gradeOfFinality = gof_High, IsPastMarker = False\<rparr>),
         (2, \<lparr>msg_gradeOfFinality = gof_High, IsPastMarker = True\<rparr>)],
      Storage_Attachments = (\<lambda>tx. if tx = 10 then [1] else []),
      LedgerState_TransactionMetadata =
        [(10, \<lparr>tx_gradeOfFinality = gof_Medium, tx_BranchID = NewBranchID 10\<rparr>),
         (11, \<lparr>tx_gradeOfFinality = gof_None, tx_BranchID = NewBranchID 11\<rparr>)],
      LedgerState_Transaction =
        [10 \<mapsto> \<lparr>Outputs = [100, 101]\<rparr>, 11 \<mapsto> \<lparr>Outputs = [110]\<rparr>],
      LedgerState_OutputMetadata =
        [(100, \<lparr>out_gradeOfFinality = gof_Medium\<rparr>),
         (101, \<lparr>out_gradeOfFinality = gof_Medium\<rparr>),
         (110, \<lparr>out_gradeOfFinality = gof_None\<rparr>)],
      LedgerState_Consumers = (\<lambda>out. if out = 100 then [11] else []),
      LedgerState_TransactionConflicting = (\<lambda>tx. tx = 10),
      WeightOfBranch = (\<lambda>b. 0.6)\<rparr>"

lemmas example_defs =
  example_tangle_def defaultOpts_def DefaultMessageGoFTranslation_def
  DefaultBranchGoFTranslation_def lowLowerBound_def mediumLowerBound_def highLowerBound_def
  EmptyMessageID_def less_GradeOfFinality_def less_eq_GradeOfFinality_def

section \<open>Sequences of calls and the order on stored grades\<close>




text \<open>
  \<open>store_le f ps qs\<close>: the two stores hold the same keys, and under every key the grade
  in \<open>qs\<close> is at least the grade in \<open>ps\<close>. \<open>never_lowered t t'\<close> says so of the
  message, transaction and output metadata of two tangles.
\<close>

definition store_le :: "('v \<Rightarrow> GradeOfFinality) \<Rightarrow> ('k \<times> 'v) list \<Rightarrow> ('k \<times> 'v) list \<Rightarrow> bool" where
  "store_le f ps qs = (\<forall>k. rel_option (\<lambda>a b. f a \<le> f b) (map_of ps k) (map_of qs k))"

definition never_lowered :: "Tangle \<Rightarrow> Tangle \<Rightarrow> bool" where
  "never_lowered t t' =
     (store_le msg_gradeOfFinality (Storage_MessageMetadata t) (Storage_MessageMetadata t')
      \<and> store_le tx_gradeOfFinality (LedgerState_TransactionMetadata t) (LedgerState_TransactionMetadata t')
      \<and> store_le out_gradeOfFinality (LedgerState_OutputMetadata t) (LedgerState_OutputMetadata t'))"

text \<open>
  \<open>same_graph t t'\<close>: the two tangles agree on everything the gadget only reads (the
  marker index, the messages, the attachments, the transactions, the consumers, the
  conflict flags and the branch weights).
\<close>

definition same_graph :: "Tangle \<Rightarrow> Tangle \<Rightarrow> bool" where
  "same_graph t t' =
     (MarkersManager_MessageID t' = MarkersManager_MessageID t
      \<and> Storage_Message t' = Storage_Message t
      \<and> Storage_Attachments t' = Storage_Attachments t
      \<and> LedgerState_Transaction t' = LedgerState_Transaction t
      \<and> LedgerState_Consumers t' = LedgerState_Consumers t
      \<and> LedgerState_TransactionConflicting t' = LedgerState_TransactionConflicting t
      \<and> WeightOfBranch t' = WeightOfBranch t)"

text \<open>
  The example tangle before any weight has arrived: every stored grade is None.
\<close>

definition fresh_tangle :: Tangle where
  "fresh_tangle =
     example_tangle
       \<lparr>Storage_MessageMetadata :=
          [(1, \<lparr>msg_gradeOfFinality = gof_None, IsPastMarker = False\<rparr>),
           (2, \<lparr>msg_gradeOfFinality = gof_None, IsPastMarker = True\<rparr>)],
        LedgerState_TransactionMetadata :=
          [(10, \<lparr>tx_gradeOfFinality = gof_None, tx_BranchID = NewBranchID 10\<rparr>),
           (11, \<lparr>tx_gradeOfFinality = gof_None, tx_BranchID = NewBranchID 11\<rparr>)],
        LedgerState_OutputMetadata :=
          [(100, \<lparr>out_gradeOfFinality = gof_None\<rparr>),
           (101, \<lparr>out_gradeOfFinality = gof_None\<rparr>),
           (110, \<lparr>out_gradeOfFinality = gof_None\<rparr>)]\<rparr>"

section \<open>Events and raises\<close>





text \<open>
  The example tangle with the only attachment of transaction 10, message 1, at Medium.
\<close>

definition capped_tangle :: Tangle where
  "capped_tangle =
     example_tangle
       \<lparr>Storage_MessageMetadata :=
          [(1, \<lparr>msg_gradeOfFinality = gof_Medium, IsPastMarker = False\<rparr>)]\<rparr>"

section \<open>Properties\<close>

subsection \<open>Threshold bands\<close>

text \<open>
  C10. The default message translation and the default branch translation are the same
  function of the weight, and that function is the band table of the specification:
  None below 0.2, Low on [0.2, 0.3), Medium on [0.3, 0.5), High from 0.5 upwards. At the
  named boundary points: 0.2 gives Low, 0.19999 gives None, 0.3 gives Medium and 0.5
  gives High.
\<close>

theorem default_translations_bands:
  "DefaultMessageGoFTranslation w = spec_translate w
   \<and> DefaultBranchGoFTranslation branchID w = spec_translate w
   \<and> DefaultMessageGoFTranslation 0.2 = gof_Low
   \<and> DefaultMessageGoFTranslation 0.19999 = gof_None
   \<and> DefaultMessageGoFTranslation 0.3 = gof_Medium
   \<and> DefaultMessageGoFTranslation 0.5 = gof_High
   \<and> DefaultBranchGoFTranslation branchID 0.2 = gof_Low
   \<and> DefaultBranchGoFTranslation branchID 0.19999 = gof_None
   \<and> DefaultBranchGoFTranslation branchID 0.3 = gof_Medium
   \<and> DefaultBranchGoFTranslation branchID 0.5 = gof_High"
  by (simp add: DefaultMessageGoFTranslation_def DefaultBranchGoFTranslation_def
      spec_translate_def lowLowerBound_def mediumLowerBound_def highLowerBound_def)

subsection \<open>The transaction query\<close>

text \<open>
  C1. The specification reads the transaction's grade of finality against the branch
  confirmed level. The source compares it with \<open>MessageGoFReachedLevel\<close>. With the
  message level at High and the branch level at Low, a stored transaction of grade
  Medium has reached the branch level, its output of grade Medium is reported confirmed
  by \<open>IsOutputConfirmed\<close>, and \<open>IsTransactionConfirmed\<close> returns false.
\<close>

theorem IsTransactionConfirmed_uses_message_level:
  "map_of (LedgerState_TransactionMetadata example_tangle) 10
     = Some \<lparr>tx_gradeOfFinality = gof_Medium, tx_BranchID = NewBranchID 10\<rparr>
   \<and> BranchGoFReachedLevel (defaultOpts\<lparr>BranchGoFReachedLevel := gof_Low\<rparr>) \<le> gof_Medium
   \<and> IsTransactionConfirmed (defaultOpts\<lparr>BranchGoFReachedLevel := gof_Low\<rparr>) example_tangle 10 = False
   \<and> IsOutputConfirmed (defaultOpts\<lparr>BranchGoFReachedLevel := gof_Low\<rparr>) example_tangle 100 = True"
  by (simp add: IsTransactionConfirmed_def IsOutputConfirmed_def example_defs)

lemma IsTransactionConfirmed_iff:
  "IsTransactionConfirmed opts t transactionID =
     (\<exists>tm. map_of (LedgerState_TransactionMetadata t) transactionID = Some tm
           \<and> MessageGoFReachedLevel opts \<le> tx_gradeOfFinality tm)"
  by (simp add: IsTransactionConfirmed_def split: option.splits)

subsection \<open>The error result of a branch update\<close>

lemma HandleBranch_err: "snd (snd (HandleBranch opts t branchID aw)) = None"
  by (simp add: HandleBranch_def Let_def split: prod.splits)

text \<open>
  C8, as stated, asks for some branch input on which \<open>HandleBranch\<close> returns a
  non-nil error. There is none.
\<close>

theorem HandleBranch_error_counterexample:
  "\<not> (\<exists>opts t branchID aw. snd (snd (HandleBranch opts t branchID aw)) \<noteq> None)"
  by (simp add: HandleBranch_err)

text \<open>
  C8 (amended). \<open>HandleBranch\<close> returns the nil error for every configuration, every
  tangle, every branch and every weight. \<open>ErrUnsupportedBranchType\<close> is declared, and
  no path of \<open>HandleBranch\<close> returns it.
\<close>

theorem HandleBranch_returns_nil:
  "snd (snd (HandleBranch opts t branchID aw)) = None
   \<and> snd (snd (HandleBranch opts t branchID aw)) \<noteq> Some ErrUnsupportedBranchType"
  by (simp add: HandleBranch_err)

subsection \<open>Unfolding the walks\<close>

lemma walkMessages_empty: "stack w = [] \<Longrightarrow> walkMessages opts g t w evs = (t, evs)"
  by (subst walkMessages.simps) simp

lemma walkMessages_Cons:
  "stack w = messageID # rest \<Longrightarrow>
   WalkMessageAndMetadata_step opts g messageID t (w\<lparr>stack := rest\<rparr>) = (t', w', evs') \<Longrightarrow>
   walkMessages opts g t w evs = walkMessages opts g t' w' (evs @ evs')"
  by (subst walkMessages.simps) simp

lemma walkBranch_empty: "stack w = [] \<Longrightarrow> walkBranch opts b g t w evs = (t, evs)"
  by (subst walkBranch.simps) simp

lemma walkBranch_Cons:
  "stack w = txID # rest \<Longrightarrow>
   forwardPropagateBranchGoFToTxs opts txID b g t (w\<lparr>stack := rest\<rparr>) = (t', w', evs') \<Longrightarrow>
   walkBranch opts b g t w evs = walkBranch opts b g t' w' (evs @ evs')"
  by (subst walkBranch.simps) simp

lemma Push_walker_New: "Push x walker_New = \<lparr>stack = [x], pushedElements = [x]\<rparr>"
  by (simp add: Push_def walker_New_def)

subsection \<open>A marker without a message\<close>

text \<open>
  C5. When the identifier a marker gives has no message in the storage (no message
  object or no message metadata; for an unresolved marker the identifier is
  \<open>EmptyMessageID\<close>), \<open>HandleMarker\<close> with a weight whose grade is not None returns
  the tangle as it was, no event and the nil error.
\<close>

theorem HandleMarker_unresolved_noop:
  assumes "Storage_Message t (MarkersManager_MessageID t marker) = None
           \<or> map_of (Storage_MessageMetadata t) (MarkersManager_MessageID t marker) = None"
    and "MessageTransFunc opts aw \<noteq> gof_None"
  shows "HandleMarker opts t marker aw = (t, [], None)"
proof (cases "map_of (Storage_MessageMetadata t) (MarkersManager_MessageID t marker)")
  case None
  then show ?thesis by (simp add: HandleMarker_def Let_def)
next
  case (Some messageMetadata)
  with assms(1) have nomsg: "Storage_Message t (MarkersManager_MessageID t marker) = None" by simp
  let ?m = "MarkersManager_MessageID t marker"
  have step: "WalkMessageAndMetadata_step opts (MessageTransFunc opts aw) ?m t
                \<lparr>stack = [], pushedElements = [?m]\<rparr> = (t, \<lparr>stack = [], pushedElements = [?m]\<rparr>, [])"
    using nomsg by (simp add: WalkMessageAndMetadata_step_def)
  have "walkMessages opts (MessageTransFunc opts aw) t (Push ?m walker_New) [] = (t, [])"
    using walkMessages_Cons [of "Push ?m walker_New" ?m "[]", OF _ _] step
    by (simp add: Push_walker_New walkMessages_empty)
  then show ?thesis by (simp add: HandleMarker_def Let_def)
qed

theorem HandleMarker_unresolved_noop_witness:
  "MarkersManager_MessageID example_tangle (7, 3) = EmptyMessageID
   \<and> Storage_Message example_tangle EmptyMessageID = None
   \<and> map_of (Storage_MessageMetadata example_tangle) EmptyMessageID = None
   \<and> MessageTransFunc defaultOpts 0.6 = gof_High
   \<and> HandleMarker defaultOpts example_tangle (7, 3) 0.6 = (example_tangle, [], None)"
proof -
  have h1: "Storage_Message example_tangle (MarkersManager_MessageID example_tangle (7, 3)) = None
            \<or> map_of (Storage_MessageMetadata example_tangle)
                 (MarkersManager_MessageID example_tangle (7, 3)) = None"
    by (simp add: example_defs)
  have h2: "MessageTransFunc defaultOpts 0.6 \<noteq> gof_None"
    by (simp add: example_defs)
  show ?thesis
    using HandleMarker_unresolved_noop [OF h1 h2]
    by (simp add: example_defs)
qed

subsection \<open>The payload cascade on a conflicting transaction\<close>

lemma fold_setOutputGoF_txs [simp]:
  "LedgerState_TransactionMetadata (fold (setOutputGoF g) os t) = LedgerState_TransactionMetadata t"
  by (induction os arbitrary: t) simp_all

lemma setOutputGoF_update_txs:
  "setOutputGoF g outputID (t\<lparr>LedgerState_TransactionMetadata := txs\<rparr>)
     = (setOutputGoF g outputID t)\<lparr>LedgerState_TransactionMetadata := txs\<rparr>"
  by (simp add: setOutputGoF_def split: option.splits prod.splits)

lemma fold_setOutputGoF_update_txs:
  "fold (setOutputGoF g) os (t\<lparr>LedgerState_TransactionMetadata := txs\<rparr>)
     = (fold (setOutputGoF g) os t)\<lparr>LedgerState_TransactionMetadata := txs\<rparr>"
  by (induction os arbitrary: t) (simp_all add: setOutputGoF_update_txs)

text \<open>
  C4. When the payload of a raised message is a conflicting transaction, the level tried
  on the transaction is the branch translation of the weight of the transaction's own
  branch; the level derived from the message plays no part. When that level does not
  change the stored level, nothing is written and no event is emitted. When it does, the
  transaction takes that level, its outputs are updated with that level, and a
  \<open>TransactionConfirmed\<close> event is emitted exactly when that level has reached the
  branch confirmed level.
\<close>

theorem setPayloadGoF_conflicting:
  assumes "Storage_Message t messageID = Some message"
    and "Payload message = Some transactionID"
    and "map_of (LedgerState_TransactionMetadata t) transactionID = Some transactionMetadata"
    and "LedgerState_TransactionConflicting t transactionID"
    and "candidate = BranchTransFunc opts (NewBranchID transactionID)
                       (WeightOfBranch t (NewBranchID transactionID))"
  shows "setPayloadGoF opts messageID gradeOfFinality t = setPayloadGoF opts messageID candidate t
    \<and> (\<not> tx_gradeOfFinality transactionMetadata < candidate \<longrightarrow>
         setPayloadGoF opts messageID gradeOfFinality t = (t, []))
    \<and> (tx_gradeOfFinality transactionMetadata < candidate \<longrightarrow>
         setPayloadGoF opts messageID gradeOfFinality t =
           ((case LedgerState_Transaction t transactionID of
               None \<Rightarrow> t
             | Some transaction \<Rightarrow> fold (setOutputGoF candidate) (Outputs transaction) t)
              \<lparr>LedgerState_TransactionMetadata :=
                 AList.update transactionID (transactionMetadata\<lparr>tx_gradeOfFinality := candidate\<rparr>)
                   (LedgerState_TransactionMetadata t)\<rparr>,
            if BranchGoFReachedLevel opts \<le> candidate then [TransactionConfirmed transactionID] else []))"
  using assms
  by (auto simp: setPayloadGoF_def Let_def SetGradeOfFinality_def fold_setOutputGoF_update_txs
      split: option.splits)

theorem setPayloadGoF_conflicting_witness:
  "Storage_Message example_tangle 1 = Some \<lparr>StrongParents = [], Payload = Some 10\<rparr>
   \<and> map_of (LedgerState_TransactionMetadata example_tangle) 10
       = Some \<lparr>tx_gradeOfFinality = gof_Medium, tx_BranchID = NewBranchID 10\<rparr>
   \<and> LedgerState_TransactionConflicting example_tangle 10
   \<and> BranchTransFunc defaultOpts (NewBranchID 10) (WeightOfBranch example_tangle (NewBranchID 10)) = gof_High
   \<and> setPayloadGoF defaultOpts 1 gof_Low example_tangle = setPayloadGoF defaultOpts 1 gof_High example_tangle
   \<and> snd (setPayloadGoF defaultOpts 1 gof_Low example_tangle) = [TransactionConfirmed 10]
   \<and> LedgerState_TransactionMetadata (fst (setPayloadGoF defaultOpts 1 gof_Low example_tangle))
       = [(10, \<lparr>tx_gradeOfFinality = gof_High, tx_BranchID = NewBranchID 10\<rparr>),
          (11, \<lparr>tx_gradeOfFinality = gof_None, tx_BranchID = NewBranchID 11\<rparr>)]
   \<and> LedgerState_OutputMetadata (fst (setPayloadGoF defaultOpts 1 gof_Low example_tangle))
       = [(100, \<lparr>out_gradeOfFinality = gof_High\<rparr>),
          (101, \<lparr>out_gradeOfFinality = gof_High\<rparr>),
          (110, \<lparr>out_gradeOfFinality = gof_None\<rparr>)]"
proof -
  have h1: "Storage_Message example_tangle 1 = Some \<lparr>StrongParents = [], Payload = Some 10\<rparr>"
    by (simp add: example_tangle_def)
  have h2: "Payload \<lparr>StrongParents = [], Payload = Some 10\<rparr> = Some 10"
    by simp
  have h3: "map_of (LedgerState_TransactionMetadata example_tangle) 10
       = Some \<lparr>tx_gradeOfFinality = gof_Medium, tx_BranchID = NewBranchID 10\<rparr>"
    by (simp add: example_tangle_def)
  have h4: "LedgerState_TransactionConflicting example_tangle 10"
    by (simp add: example_tangle_def)
  have h5: "gof_High = BranchTransFunc defaultOpts (NewBranchID 10)
                         (WeightOfBranch example_tangle (NewBranchID 10))"
    by (simp add: example_defs)
  have lt: "tx_gradeOfFinality \<lparr>tx_gradeOfFinality = gof_Medium, tx_BranchID = NewBranchID 10\<rparr> < gof_High"
    by (simp add: less_GradeOfFinality_def)
  have lvl: "BranchGoFReachedLevel defaultOpts \<le> gof_High"
    by (simp add: defaultOpts_def)
  have tx: "LedgerState_Transaction example_tangle 10 = Some \<lparr>Outputs = [100, 101]\<rparr>"
    by (simp add: example_tangle_def)
  have out: "setOutputGoF gof_High 101 (setOutputGoF gof_High 100 example_tangle)
      = example_tangle\<lparr>LedgerState_OutputMetadata :=
          [(100, \<lparr>out_gradeOfFinality = gof_High\<rparr>),
           (101, \<lparr>out_gradeOfFinality = gof_High\<rparr>),
           (110, \<lparr>out_gradeOfFinality = gof_None\<rparr>)]\<rparr>"
    by (simp add: setOutputGoF_def SetGradeOfFinality_def example_defs)
  have txs: "LedgerState_TransactionMetadata example_tangle
      = [(10, \<lparr>tx_gradeOfFinality = gof_Medium, tx_BranchID = NewBranchID 10\<rparr>),
         (11, \<lparr>tx_gradeOfFinality = gof_None, tx_BranchID = NewBranchID 11\<rparr>)]"
    by (simp add: example_tangle_def)
  note c4 = setPayloadGoF_conflicting [OF h1 h2 h3 h4 h5, of gof_Low]
  from c4 have eq1: "setPayloadGoF defaultOpts 1 gof_Low example_tangle
                       = setPayloadGoF defaultOpts 1 gof_High example_tangle"
    by blast
  from c4 lt have eq2: "setPayloadGoF defaultOpts 1 gof_Low example_tangle =
       ((case LedgerState_Transaction example_tangle 10 of
           None \<Rightarrow> example_tangle
         | Some transaction \<Rightarrow> fold (setOutputGoF gof_High) (Outputs transaction) example_tangle)
          \<lparr>LedgerState_TransactionMetadata :=
             AList.update 10 (\<lparr>tx_gradeOfFinality = gof_Medium, tx_BranchID = NewBranchID 10\<rparr>
                                \<lparr>tx_gradeOfFinality := gof_High\<rparr>)
               (LedgerState_TransactionMetadata example_tangle)\<rparr>,
        if BranchGoFReachedLevel defaultOpts \<le> gof_High then [TransactionConfirmed 10] else [])"
    by blast
  have res: "snd (setPayloadGoF defaultOpts 1 gof_Low example_tangle) = [TransactionConfirmed 10]
    \<and> LedgerState_TransactionMetadata (fst (setPayloadGoF defaultOpts 1 gof_Low example_tangle))
       = [(10, \<lparr>tx_gradeOfFinality = gof_High, tx_BranchID = NewBranchID 10\<rparr>),
          (11, \<lparr>tx_gradeOfFinality = gof_None, tx_BranchID = NewBranchID 11\<rparr>)]
    \<and> LedgerState_OutputMetadata (fst (setPayloadGoF defaultOpts 1 gof_Low example_tangle))
       = [(100, \<lparr>out_gradeOfFinality = gof_High\<rparr>),
          (101, \<lparr>out_gradeOfFinality = gof_High\<rparr>),
          (110, \<lparr>out_gradeOfFinality = gof_None\<rparr>)]"
    unfolding eq2 by (simp add: tx out txs lvl)
  show ?thesis
    using h1 h3 h4 h5 [symmetric] eq1 res by simp
qed

subsection \<open>No stored grade is lowered\<close>

lemma store_le_refl [simp]: "store_le f ps ps"
  by (simp add: store_le_def option.rel_refl)

lemma store_le_trans: "store_le f ps qs \<Longrightarrow> store_le f qs rs \<Longrightarrow> store_le f ps rs"
  unfolding store_le_def
proof
  fix k
  assume a: "\<forall>k. rel_option (\<lambda>a b. f a \<le> f b) (map_of ps k) (map_of qs k)"
    and b: "\<forall>k. rel_option (\<lambda>a b. f a \<le> f b) (map_of qs k) (map_of rs k)"
  from a have "rel_option (\<lambda>a b. f a \<le> f b) (map_of ps k) (map_of qs k)" ..
  moreover from b have "rel_option (\<lambda>a b. f a \<le> f b) (map_of qs k) (map_of rs k)" ..
  ultimately show "rel_option (\<lambda>a b. f a \<le> f b) (map_of ps k) (map_of rs k)"
    by (cases "map_of ps k"; cases "map_of qs k"; cases "map_of rs k") auto
qed

lemma store_le_update:
  "map_of ps k = Some v \<Longrightarrow> f v \<le> f v' \<Longrightarrow> store_le f ps (AList.update k v' ps)"
  by (simp add: store_le_def update_conv' option.rel_refl)

lemma never_lowered_refl [simp]: "never_lowered t t"
  by (simp add: never_lowered_def)

lemma never_lowered_trans: "never_lowered t t' \<Longrightarrow> never_lowered t' t'' \<Longrightarrow> never_lowered t t''"
  unfolding never_lowered_def by (blast intro: store_le_trans)


lemma setOutputGoF_never_lowered: "never_lowered t (setOutputGoF g outputID t)"
  by (auto simp: setOutputGoF_def never_lowered_def SetGradeOfFinality_def
      intro!: store_le_update split: option.splits)

lemma fold_setOutputGoF_never_lowered: "never_lowered t (fold (setOutputGoF g) os t)"
proof (induction os arbitrary: t)
  case Nil
  show ?case by simp
next
  case (Cons a os)
  have "never_lowered t (setOutputGoF g a t)" by (rule setOutputGoF_never_lowered)
  moreover have "never_lowered (setOutputGoF g a t) (fold (setOutputGoF g) os (setOutputGoF g a t))"
    by (rule Cons.IH)
  ultimately show ?case by (simp add: never_lowered_trans)
qed

lemma raise_tx_never_lowered:
  assumes "map_of (LedgerState_TransactionMetadata t) txID = Some tm"
    and "tx_gradeOfFinality tm \<le> g"
  shows "never_lowered t (t\<lparr>LedgerState_TransactionMetadata :=
            AList.update txID (tm\<lparr>tx_gradeOfFinality := g\<rparr>) (LedgerState_TransactionMetadata t)\<rparr>)"
  using assms by (simp add: never_lowered_def store_le_update)

lemma raise_msg_never_lowered:
  assumes "map_of (Storage_MessageMetadata t) messageID = Some md"
    and "msg_gradeOfFinality md \<le> g"
  shows "never_lowered t (t\<lparr>Storage_MessageMetadata :=
            AList.update messageID (md\<lparr>msg_gradeOfFinality := g\<rparr>) (Storage_MessageMetadata t)\<rparr>)"
  using assms by (simp add: never_lowered_def store_le_update)

lemma setPayloadGoF_never_lowered: "never_lowered t (fst (setPayloadGoF opts messageID g t))"
proof -
  have "never_lowered t (fold (setOutputGoF c) os
          (t\<lparr>LedgerState_TransactionMetadata :=
               AList.update txID (tm\<lparr>tx_gradeOfFinality := c\<rparr>) (LedgerState_TransactionMetadata t)\<rparr>))"
    if "map_of (LedgerState_TransactionMetadata t) txID = Some tm" "tx_gradeOfFinality tm < c"
    for txID tm c os
    using raise_tx_never_lowered [OF that(1), of c] that(2)
      fold_setOutputGoF_never_lowered never_lowered_trans
    by (metis less_imp_le)
  then show ?thesis
    by (auto simp: setPayloadGoF_def Let_def SetGradeOfFinality_def raise_tx_never_lowered
        split: option.splits)
qed

lemma setMessageGoF_never_lowered:
  assumes "map_of (Storage_MessageMetadata t) messageID = Some md"
  shows "never_lowered t (fst (setMessageGoF opts messageID md g t))"
proof (cases "msg_gradeOfFinality md < g")
  case False
  then show ?thesis by (simp add: setMessageGoF_def SetGradeOfFinality_def)
next
  case True
  let ?t1 = "t\<lparr>Storage_MessageMetadata :=
                AList.update messageID (md\<lparr>msg_gradeOfFinality := g\<rparr>) (Storage_MessageMetadata t)\<rparr>"
  have "never_lowered t ?t1"
    using raise_msg_never_lowered [OF assms, of g] True by simp
  moreover have "never_lowered ?t1 (fst (setPayloadGoF opts messageID g ?t1))"
    by (rule setPayloadGoF_never_lowered)
  ultimately have "never_lowered t (fst (setPayloadGoF opts messageID g ?t1))"
    by (rule never_lowered_trans)
  with True show ?thesis
    by (auto simp: setMessageGoF_def SetGradeOfFinality_def split: prod.splits)
qed

lemma WalkMessageAndMetadata_step_never_lowered:
  "never_lowered t (fst (WalkMessageAndMetadata_step opts g messageID t w))"
  using setMessageGoF_never_lowered
  by (auto simp: WalkMessageAndMetadata_step_def propagateGoF_def split: option.splits prod.splits)
     (metis fst_conv)+

lemma walkMessages_induct' [consumes 0, case_names empty step]:
  assumes "\<And>t w evs. stack w = [] \<Longrightarrow> P t w evs"
    and "\<And>t w evs messageID rest t' w' evs'.
           stack w = messageID # rest \<Longrightarrow>
           WalkMessageAndMetadata_step opts g messageID t (w\<lparr>stack := rest\<rparr>) = (t', w', evs') \<Longrightarrow>
           P t' w' (evs @ evs') \<Longrightarrow> P t w evs"
  shows "P t w evs"
  using assms
proof (induction opts g t w evs rule: walkMessages.induct)
  case (1 opts g t w evs)
  show ?case
  proof (cases "stack w")
    case Nil
    then show ?thesis by (rule "1.prems"(1))
  next
    case (Cons messageID rest)
    obtain t' w' evs' where
      step: "WalkMessageAndMetadata_step opts g messageID t (w\<lparr>stack := rest\<rparr>) = (t', w', evs')"
      by (cases "WalkMessageAndMetadata_step opts g messageID t (w\<lparr>stack := rest\<rparr>)") auto
    have "P t' w' (evs @ evs')"
      by (rule "1.IH" [OF Cons step [symmetric] refl "1.prems"])
    with Cons step show ?thesis by (rule "1.prems"(2))
  qed
qed

lemma walkMessages_never_lowered: "never_lowered t (fst (walkMessages opts g t w evs))"
proof (induction t w evs rule: walkMessages_induct' [where opts = opts and g = g])
  case (empty t w evs)
  then show ?case by (simp add: walkMessages_empty)
next
  case (step t w evs messageID rest t' w' evs')
  have "never_lowered t t'"
    using WalkMessageAndMetadata_step_never_lowered [of t opts g messageID "w\<lparr>stack := rest\<rparr>"] step(2)
    by simp
  with step(3) show ?case
    using walkMessages_Cons [OF step(1) step(2)] never_lowered_trans by simp
qed






lemma walkBranch_induct' [consumes 0, case_names empty step]:
  assumes "\<And>t w evs. stack w = [] \<Longrightarrow> P t w evs"
    and "\<And>t w evs txID rest t' w' evs'.
           stack w = txID # rest \<Longrightarrow>
           forwardPropagateBranchGoFToTxs opts txID b g t (w\<lparr>stack := rest\<rparr>) = (t', w', evs') \<Longrightarrow>
           P t' w' (evs @ evs') \<Longrightarrow> P t w evs"
  shows "P t w evs"
  using assms
proof (induction opts b g t w evs rule: walkBranch.induct)
  case (1 opts b g t w evs)
  show ?case
  proof (cases "stack w")
    case Nil
    then show ?thesis by (rule "1.prems"(1))
  next
    case (Cons txID rest)
    obtain t' w' evs' where
      step: "forwardPropagateBranchGoFToTxs opts txID b g t (w\<lparr>stack := rest\<rparr>) = (t', w', evs')"
      by (cases "forwardPropagateBranchGoFToTxs opts txID b g t (w\<lparr>stack := rest\<rparr>)") auto
    have "P t' w' (evs @ evs')"
      by (rule "1.IH" [OF Cons step [symmetric] refl "1.prems"])
    with Cons step show ?thesis by (rule "1.prems"(2))
  qed
qed






subsection \<open>The gadget writes metadata only\<close>

lemma same_graph_refl [simp]: "same_graph t t"
  by (simp add: same_graph_def)

lemma same_graph_trans: "same_graph t t' \<Longrightarrow> same_graph t' t'' \<Longrightarrow> same_graph t t''"
  by (simp add: same_graph_def)

lemma setOutputGoF_same_graph: "same_graph t (setOutputGoF g outputID t)"
  by (simp add: setOutputGoF_def same_graph_def split: option.splits prod.splits)

lemma fold_setOutputGoF_same_graph: "same_graph t (fold (setOutputGoF g) os t)"
proof (induction os arbitrary: t)
  case Nil
  show ?case by simp
next
  case (Cons a os)
  show ?case
    using setOutputGoF_same_graph [of t g a] Cons.IH [of "setOutputGoF g a t"]
    by (simp add: same_graph_trans)
qed

lemma setPayloadGoF_same_graph: "same_graph t (fst (setPayloadGoF opts messageID g t))"
proof -
  have "same_graph t (fold (setOutputGoF c) os (t\<lparr>LedgerState_TransactionMetadata := txs\<rparr>))"
    for c os txs
    using fold_setOutputGoF_same_graph [of "t\<lparr>LedgerState_TransactionMetadata := txs\<rparr>" c os]
    by (simp add: same_graph_def)
  then show ?thesis
    by (auto simp: setPayloadGoF_def Let_def SetGradeOfFinality_def split: option.splits)
       (simp_all add: same_graph_def)
qed

lemma setMessageGoF_same_graph: "same_graph t (fst (setMessageGoF opts messageID md g t))"
proof -
  have "same_graph t (fst (setPayloadGoF opts messageID g (t\<lparr>Storage_MessageMetadata := ms\<rparr>)))" for ms
    using setPayloadGoF_same_graph [of "t\<lparr>Storage_MessageMetadata := ms\<rparr>" opts messageID g]
    by (simp add: same_graph_def)
  then show ?thesis
    by (auto simp: setMessageGoF_def split: prod.splits) (metis fst_conv)
qed

lemma WalkMessageAndMetadata_step_same_graph:
  "same_graph t (fst (WalkMessageAndMetadata_step opts g messageID t w))"
  using setMessageGoF_same_graph
  by (auto simp: WalkMessageAndMetadata_step_def propagateGoF_def split: option.splits prod.splits)
     (metis fst_conv)+

lemma walkMessages_same_graph: "same_graph t (fst (walkMessages opts g t w evs))"
proof (induction t w evs rule: walkMessages_induct' [where opts = opts and g = g])
  case (empty t w evs)
  then show ?case by (simp add: walkMessages_empty)
next
  case (step t w evs messageID rest t' w' evs')
  have "same_graph t t'"
    using WalkMessageAndMetadata_step_same_graph [of t opts g messageID "w\<lparr>stack := rest\<rparr>"] step(2)
    by simp
  with step(3) show ?case
    using walkMessages_Cons [OF step(1) step(2)] same_graph_trans by simp
qed

lemma HandleMarker_same_graph: "same_graph t (fst (HandleMarker opts t marker aw))"
  using walkMessages_same_graph
  by (auto simp: HandleMarker_def Let_def split: option.splits prod.splits) (metis fst_conv)+

subsection \<open>Repeating a marker update\<close>

lemma HandleMarker_guard:
  assumes "map_of (Storage_MessageMetadata t) (MarkersManager_MessageID t marker) = Some md"
    and "\<not> msg_gradeOfFinality md < MessageTransFunc opts aw"
  shows "HandleMarker opts t marker aw = (t, [], None)"
  using assms by (simp add: HandleMarker_def Let_def)

lemma WalkMessageAndMetadata_step_raises:
  assumes "Storage_Message t messageID = Some message"
    and "map_of (Storage_MessageMetadata t) messageID = Some md"
    and "msg_gradeOfFinality md < g"
  shows "\<exists>md'. map_of (Storage_MessageMetadata (fst (WalkMessageAndMetadata_step opts g messageID t w))) messageID
            = Some md' \<and> g \<le> msg_gradeOfFinality md'"
proof -
  let ?t1 = "t\<lparr>Storage_MessageMetadata :=
                AList.update messageID (md\<lparr>msg_gradeOfFinality := g\<rparr>) (Storage_MessageMetadata t)\<rparr>"
  have "fst (WalkMessageAndMetadata_step opts g messageID t w) = fst (setPayloadGoF opts messageID g ?t1)"
    using assms
    by (auto simp: WalkMessageAndMetadata_step_def propagateGoF_def setMessageGoF_def
        SetGradeOfFinality_def split: prod.splits)
  then have "Storage_MessageMetadata (fst (WalkMessageAndMetadata_step opts g messageID t w))
               = Storage_MessageMetadata ?t1"
    by (simp add: setPayloadGoF_msgs)
  then show ?thesis
    by (simp add: update_conv')
qed

lemma never_lowered_msg_ge:
  assumes "never_lowered t t'"
    and "map_of (Storage_MessageMetadata t) messageID = Some md"
  shows "\<exists>md'. map_of (Storage_MessageMetadata t') messageID = Some md'
               \<and> msg_gradeOfFinality md \<le> msg_gradeOfFinality md'"
proof -
  from assms(1) have "rel_option (\<lambda>a b. msg_gradeOfFinality a \<le> msg_gradeOfFinality b)
      (map_of (Storage_MessageMetadata t) messageID) (map_of (Storage_MessageMetadata t') messageID)"
    by (simp add: never_lowered_def store_le_def)
  with assms(2) show ?thesis
    by (cases "map_of (Storage_MessageMetadata t') messageID") auto
qed

lemma walk_unstored_message:
  assumes "Storage_Message t messageID = None"
  shows "walkMessages opts g t (Push messageID walker_New) [] = (t, [])"
proof -
  have "WalkMessageAndMetadata_step opts g messageID t \<lparr>stack = [], pushedElements = [messageID]\<rparr>
          = (t, \<lparr>stack = [], pushedElements = [messageID]\<rparr>, [])"
    using assms by (simp add: WalkMessageAndMetadata_step_def)
  then show ?thesis
    using walkMessages_Cons [of "Push messageID walker_New" messageID "[]" opts g t]
    by (simp add: Push_walker_New walkMessages_empty)
qed

lemma walk_stored_message_raises:
  assumes "Storage_Message t messageID = Some message"
    and "map_of (Storage_MessageMetadata t) messageID = Some md"
    and "msg_gradeOfFinality md < g"
  shows "\<exists>md'. map_of (Storage_MessageMetadata
                          (fst (walkMessages opts g t (Push messageID walker_New) []))) messageID = Some md'
               \<and> g \<le> msg_gradeOfFinality md'"
proof -
  let ?w = "\<lparr>stack = [], pushedElements = [messageID]\<rparr>"
  obtain t' w' evs' where step: "WalkMessageAndMetadata_step opts g messageID t ?w = (t', w', evs')"
    by (cases "WalkMessageAndMetadata_step opts g messageID t ?w") auto
  from WalkMessageAndMetadata_step_raises [OF assms, of opts ?w] step
  obtain md1 where md1: "map_of (Storage_MessageMetadata t') messageID = Some md1"
    "g \<le> msg_gradeOfFinality md1" by auto
  have eq: "walkMessages opts g t (Push messageID walker_New) [] = walkMessages opts g t' w' evs'"
    using walkMessages_Cons [of "Push messageID walker_New" messageID "[]" opts g t t' w' evs' "[]"] step
    by (simp add: Push_walker_New)
  from never_lowered_msg_ge [OF walkMessages_never_lowered md1(1), of opts g w' evs'] md1(2)
  show ?thesis unfolding eq by (auto intro: order_trans)
qed

text \<open>
  C9. Calling \<open>HandleMarker\<close> again with the same marker and the same weight, on the
  tangle the first call left, returns that tangle unchanged and emits no event: two calls
  in sequence end in the state one call ends in, and the second writes nothing. More
  generally a call whose translated grade is not strictly above the stored grade of the
  marker's message returns the tangle unchanged and emits nothing.
\<close>

theorem HandleMarker_idempotent:
  "HandleMarker opts (fst (HandleMarker opts t marker aw)) marker aw
     = (fst (HandleMarker opts t marker aw), [], None)
   \<and> (map_of (Storage_MessageMetadata t) (MarkersManager_MessageID t marker) = Some md
        \<and> \<not> msg_gradeOfFinality md < MessageTransFunc opts aw
      \<longrightarrow> HandleMarker opts t marker aw = (t, [], None))"
proof -
  let ?g = "MessageTransFunc opts aw"
  let ?m = "MarkersManager_MessageID t marker"
  let ?t' = "fst (HandleMarker opts t marker aw)"
  have second: "HandleMarker opts ?t' marker aw = (?t', [], None)"
  proof (cases "?g \<noteq> gof_None \<and> (\<exists>md. map_of (Storage_MessageMetadata t) ?m = Some md
                   \<and> msg_gradeOfFinality md < ?g)")
    case False
    then have "HandleMarker opts t marker aw = (t, [], None)"
      by (auto simp: HandleMarker_def Let_def split: option.splits)
    then show ?thesis by simp
  next
    case True
    then obtain md0 where md0: "map_of (Storage_MessageMetadata t) ?m = Some md0"
      "msg_gradeOfFinality md0 < ?g" and g: "?g \<noteq> gof_None" by auto
    have t': "?t' = fst (walkMessages opts ?g t (Push ?m walker_New) [])"
      using md0 g by (simp add: HandleMarker_def Let_def split: prod.splits)
    show ?thesis
    proof (cases "Storage_Message t ?m")
      case None
      then have "?t' = t" using t' by (simp add: walk_unstored_message)
      moreover have "HandleMarker opts t marker aw = (t, [], None)"
        using md0 g None by (simp add: HandleMarker_def Let_def walk_unstored_message)
      ultimately show ?thesis by simp
    next
      case (Some message)
      from walk_stored_message_raises [OF Some md0, of opts]
      obtain md' where md': "map_of (Storage_MessageMetadata ?t') ?m = Some md'"
        "?g \<le> msg_gradeOfFinality md'"
        unfolding t' by auto
      have "MarkersManager_MessageID ?t' marker = ?m"
        using HandleMarker_same_graph [of t opts marker aw] by (simp add: same_graph_def)
      with md' show ?thesis
        by (intro HandleMarker_guard [where md = md']) auto
    qed
  qed
  show ?thesis
    using second HandleMarker_guard [of t marker md opts aw] by blast
qed


lemma HandleMarker_fresh_events:
  "fst (snd (HandleMarker defaultOpts fresh_tangle (1, 1) 0.6))
     = [MessageConfirmed 2, TransactionConfirmed 10, MessageConfirmed 1]"
  by code_simp

theorem HandleMarker_idempotent_witness:
  "map_of (Storage_MessageMetadata example_tangle) (MarkersManager_MessageID example_tangle (1, 1))
     = Some \<lparr>msg_gradeOfFinality = gof_High, IsPastMarker = True\<rparr>
   \<and> \<not> msg_gradeOfFinality \<lparr>msg_gradeOfFinality = gof_High, IsPastMarker = True\<rparr>
         < MessageTransFunc defaultOpts 0.4
   \<and> HandleMarker defaultOpts example_tangle (1, 1) 0.4 = (example_tangle, [], None)
   \<and> fst (snd (HandleMarker defaultOpts fresh_tangle (1, 1) 0.6))
        = [MessageConfirmed 2, TransactionConfirmed 10, MessageConfirmed 1]
   \<and> HandleMarker defaultOpts (fst (HandleMarker defaultOpts fresh_tangle (1, 1) 0.6)) (1, 1) 0.6
        = (fst (HandleMarker defaultOpts fresh_tangle (1, 1) 0.6), [], None)"
proof -
  have h1: "map_of (Storage_MessageMetadata example_tangle) (MarkersManager_MessageID example_tangle (1, 1))
     = Some \<lparr>msg_gradeOfFinality = gof_High, IsPastMarker = True\<rparr>"
    by (simp add: example_tangle_def)
  have h2: "\<not> msg_gradeOfFinality \<lparr>msg_gradeOfFinality = gof_High, IsPastMarker = True\<rparr>
         < MessageTransFunc defaultOpts 0.4"
    by (simp add: example_defs)
  show ?thesis
    using HandleMarker_idempotent [of defaultOpts example_tangle "(1, 1)" "0.4"
        "\<lparr>msg_gradeOfFinality = gof_High, IsPastMarker = True\<rparr>"]
      HandleMarker_idempotent [of defaultOpts fresh_tangle "(1, 1)" "0.6"]
      h1 h2 HandleMarker_fresh_events
    by simp
qed

subsection \<open>Events are emitted for raised entities\<close>





















subsection \<open>What a branch walk leaves alone\<close>

lemma setOutputGoF_attachments [simp]:
  "Storage_Attachments (setOutputGoF g outputID t) = Storage_Attachments t"
  by (simp add: setOutputGoF_def split: option.splits prod.splits)

lemma adjustOutputGoF_msgs:
  "Storage_MessageMetadata (fst (adjustOutputGoF g outputID s)) = Storage_MessageMetadata (fst s)
   \<and> Storage_Attachments (fst (adjustOutputGoF g outputID s)) = Storage_Attachments (fst s)"
  by (cases s) (simp add: adjustOutputGoF_def split: option.splits)

lemma fold_adjustOutputGoF_msgs:
  "Storage_MessageMetadata (fst (fold (adjustOutputGoF g) os s)) = Storage_MessageMetadata (fst s)
   \<and> Storage_Attachments (fst (fold (adjustOutputGoF g) os s)) = Storage_Attachments (fst s)"
  by (induction os arbitrary: s) (simp_all add: adjustOutputGoF_msgs)

lemma forwardPropagate_cases:
  assumes "forwardPropagateBranchGoFToTxs opts txID branchID g t w = (t', w', evs')"
  obtains (skipped) "t' = t" "w' = w" "evs' = []"
  | (raised) tm where "map_of (LedgerState_TransactionMetadata t) txID = Some tm"
      "tx_BranchID tm = branchID" "\<not> maxAttachmentGoF t txID < g" "tx_gradeOfFinality tm < g"
      "LedgerState_TransactionMetadata t'
         = AList.update txID (tm\<lparr>tx_gradeOfFinality := g\<rparr>) (LedgerState_TransactionMetadata t)"
      "Storage_MessageMetadata t' = Storage_MessageMetadata t"
      "Storage_Attachments t' = Storage_Attachments t"
      "evs' = (if BranchGoFReachedLevel opts \<le> g then [TransactionConfirmed txID] else [])"
proof (cases "map_of (LedgerState_TransactionMetadata t) txID")
  case None
  with assms have "t' = t" "w' = w" "evs' = []"
    by (simp_all add: forwardPropagateBranchGoFToTxs_def)
  then show ?thesis by (rule skipped)
next
  case (Some tm)
  show ?thesis
  proof (cases "tx_BranchID tm = branchID \<and> \<not> maxAttachmentGoF t txID < g \<and> tx_gradeOfFinality tm < g")
    case False
    with assms Some have "t' = t" "w' = w" "evs' = []"
      by (auto simp: forwardPropagateBranchGoFToTxs_def SetGradeOfFinality_def split: if_splits)
    then show ?thesis by (rule skipped)
  next
    case True
    let ?t1 = "t\<lparr>LedgerState_TransactionMetadata :=
                  AList.update txID (tm\<lparr>tx_gradeOfFinality := g\<rparr>) (LedgerState_TransactionMetadata t)\<rparr>"
    have r: "forwardPropagateBranchGoFToTxs opts txID branchID g t w =
        (case LedgerState_Transaction t txID of
           None \<Rightarrow> (?t1, w, if BranchGoFReachedLevel opts \<le> g then [TransactionConfirmed txID] else [])
         | Some transaction \<Rightarrow>
             (case fold (adjustOutputGoF g) (Outputs transaction) (?t1, [], w) of
                (t2, consumerTxs, w2) \<Rightarrow>
                  (t2, w2, if BranchGoFReachedLevel opts \<le> g then [TransactionConfirmed txID] else [])))"
      using Some True
      by (simp add: forwardPropagateBranchGoFToTxs_def SetGradeOfFinality_def Let_def)
    have ev: "evs' = (if BranchGoFReachedLevel opts \<le> g then [TransactionConfirmed txID] else [])"
      using assms unfolding r by (auto split: option.splits prod.splits)
    have t': "t' = ?t1 \<or> (\<exists>os. t' = fst (fold (adjustOutputGoF g) os (?t1, [], w)))"
      using assms unfolding r by (auto split: option.splits prod.splits) (metis fst_conv)
    have "LedgerState_TransactionMetadata t' = LedgerState_TransactionMetadata ?t1"
      using t' fold_adjustOutputGoF_txs [of g _ "(?t1, [], w)"] by auto
    moreover have "Storage_MessageMetadata t' = Storage_MessageMetadata ?t1
                   \<and> Storage_Attachments t' = Storage_Attachments ?t1"
      using t' fold_adjustOutputGoF_msgs [of g _ "(?t1, [], w)"] by auto
    ultimately show ?thesis
      using Some True ev by (intro raised [of tm]) simp_all
  qed
qed

lemma walkBranch_skips:
  assumes "\<And>t w. blocked t \<Longrightarrow> forwardPropagateBranchGoFToTxs opts x b g t w = (t, w, [])"
    and "\<And>t t' txID w w' evs'. blocked t \<Longrightarrow> txID \<noteq> x \<Longrightarrow>
           forwardPropagateBranchGoFToTxs opts txID b g t w = (t', w', evs') \<Longrightarrow> blocked t'"
    and "blocked t"
  shows "map_of (LedgerState_TransactionMetadata (fst (walkBranch opts b g t w evs))) x
           = map_of (LedgerState_TransactionMetadata t) x
         \<and> (TransactionConfirmed x \<in> set (snd (walkBranch opts b g t w evs))
              \<longrightarrow> TransactionConfirmed x \<in> set evs)"
  using assms(3)
proof (induction t w evs rule: walkBranch_induct' [where opts = opts and b = b and g = g])
  case (empty t w evs)
  then show ?case by (simp add: walkBranch_empty)
next
  case (step t w evs txID rest t' w' evs')
  have eq: "walkBranch opts b g t w evs = walkBranch opts b g t' w' (evs @ evs')"
    by (rule walkBranch_Cons [OF step(1) step(2)])
  show ?case
  proof (cases "txID = x")
    case True
    with step(2) assms(1) [OF step.prems, of "w\<lparr>stack := rest\<rparr>"] have "t' = t" "evs' = []" by simp_all
    with step.IH step.prems show ?thesis unfolding eq by simp
  next
    case False
    from step(2) step.prems False have b': "blocked t'" by (rule assms(2) [rotated 2])
    from step(2) have "map_of (LedgerState_TransactionMetadata t') x
                         = map_of (LedgerState_TransactionMetadata t) x
                       \<and> TransactionConfirmed x \<notin> set evs'"
      using False by (cases rule: forwardPropagate_cases) (auto simp: update_conv')
    with step.IH [OF b'] show ?thesis unfolding eq by auto
  qed
qed

lemma forwardPropagate_capped:
  "maxAttachmentGoF t txID < g \<Longrightarrow>
   forwardPropagateBranchGoFToTxs opts txID branchID g t w = (t, w, [])"
  by (simp add: forwardPropagateBranchGoFToTxs_def split: option.splits)

lemma forwardPropagate_other_branch:
  "map_of (LedgerState_TransactionMetadata t) txID = Some tm \<Longrightarrow> tx_BranchID tm \<noteq> branchID \<Longrightarrow>
   forwardPropagateBranchGoFToTxs opts txID branchID g t w = (t, w, [])"
  by (simp add: forwardPropagateBranchGoFToTxs_def)

lemma HandleBranch_walk:
  "HandleBranch opts t branchID aw =
     (fst (walkBranch opts branchID (BranchTransFunc opts branchID aw) t
             (Push (BranchID_TransactionID branchID) walker_New) []),
      snd (walkBranch opts branchID (BranchTransFunc opts branchID aw) t
             (Push (BranchID_TransactionID branchID) walker_New) [])
        @ (if BranchGoFReachedLevel opts \<le> BranchTransFunc opts branchID aw
           then [BranchConfirmed branchID] else []),
      None)"
  by (simp add: HandleBranch_def Let_def split: prod.splits)

lemma HandleBranch_capped:
  assumes "maxAttachmentGoF t x < BranchTransFunc opts branchID aw"
  shows "map_of (LedgerState_TransactionMetadata (fst (HandleBranch opts t branchID aw))) x
           = map_of (LedgerState_TransactionMetadata t) x
         \<and> TransactionConfirmed x \<notin> set (fst (snd (HandleBranch opts t branchID aw)))"
proof -
  let ?g = "BranchTransFunc opts branchID aw"
  have "map_of (LedgerState_TransactionMetadata (fst (walkBranch opts branchID ?g t w []))) x
           = map_of (LedgerState_TransactionMetadata t) x
         \<and> (TransactionConfirmed x \<in> set (snd (walkBranch opts branchID ?g t w []))
              \<longrightarrow> TransactionConfirmed x \<in> set [])" for w
  proof (rule walkBranch_skips [where blocked = "\<lambda>t. maxAttachmentGoF t x < ?g"])
    show "forwardPropagateBranchGoFToTxs opts x branchID ?g t w = (t, w, [])"
      if "maxAttachmentGoF t x < ?g" for t w
      using that by (rule forwardPropagate_capped)
    show "maxAttachmentGoF t' x < ?g"
      if "maxAttachmentGoF t x < ?g" "txID \<noteq> x"
        "forwardPropagateBranchGoFToTxs opts txID branchID ?g t w = (t', w', evs')"
      for t t' txID w w' evs'
      using that(3) that(1) by (cases rule: forwardPropagate_cases) (simp_all add: maxAttachmentGoF_def)
    show "maxAttachmentGoF t x < ?g" by (rule assms)
  qed
  then show ?thesis by (auto simp: HandleBranch_walk)
qed

lemma HandleBranch_other_branch:
  assumes "map_of (LedgerState_TransactionMetadata t) x = Some tm" and "tx_BranchID tm \<noteq> branchID"
  shows "map_of (LedgerState_TransactionMetadata (fst (HandleBranch opts t branchID aw))) x = Some tm
         \<and> TransactionConfirmed x \<notin> set (fst (snd (HandleBranch opts t branchID aw)))"
proof -
  let ?g = "BranchTransFunc opts branchID aw"
  have "map_of (LedgerState_TransactionMetadata (fst (walkBranch opts branchID ?g t w []))) x
           = map_of (LedgerState_TransactionMetadata t) x
         \<and> (TransactionConfirmed x \<in> set (snd (walkBranch opts branchID ?g t w []))
              \<longrightarrow> TransactionConfirmed x \<in> set [])" for w
  proof (rule walkBranch_skips
      [where blocked = "\<lambda>t. map_of (LedgerState_TransactionMetadata t) x = Some tm"])
    show "forwardPropagateBranchGoFToTxs opts x branchID ?g t w = (t, w, [])"
      if "map_of (LedgerState_TransactionMetadata t) x = Some tm" for t w
      using that assms(2) by (rule forwardPropagate_other_branch)
    show "map_of (LedgerState_TransactionMetadata t') x = Some tm"
      if "map_of (LedgerState_TransactionMetadata t) x = Some tm" "txID \<noteq> x"
        "forwardPropagateBranchGoFToTxs opts txID branchID ?g t w = (t', w', evs')"
      for t t' txID w w' evs'
      using that(3) that(1) that(2)
      by (cases rule: forwardPropagate_cases) (simp_all add: update_conv')
    show "map_of (LedgerState_TransactionMetadata t) x = Some tm" by (rule assms(1))
  qed
  with assms(1) show ?thesis by (auto simp: HandleBranch_walk)
qed


text \<open>
  C6. A dequeued transaction whose best attachment has a grade of finality strictly below
  the candidate is not raised: the forward propagation step returns the tangle as it
  was (no transaction, output or message metadata written), leaves the walker as it was
  (no consumer enqueued) and emits no event. Over a whole \<open>HandleBranch\<close> call such a
  transaction keeps its metadata and gets no \<open>TransactionConfirmed\<close> event.
\<close>

theorem forwardPropagate_attachment_cap:
  "(maxAttachmentGoF t candidateTxID < newGradeOfFinality \<longrightarrow>
      forwardPropagateBranchGoFToTxs opts candidateTxID candidateBranchID newGradeOfFinality t w
        = (t, w, []))
   \<and> (maxAttachmentGoF t candidateTxID < BranchTransFunc opts branchID aw \<longrightarrow>
        map_of (LedgerState_TransactionMetadata (fst (HandleBranch opts t branchID aw))) candidateTxID
          = map_of (LedgerState_TransactionMetadata t) candidateTxID
        \<and> TransactionConfirmed candidateTxID \<notin> set (fst (snd (HandleBranch opts t branchID aw))))"
  using forwardPropagate_capped [of t candidateTxID newGradeOfFinality opts candidateBranchID w]
    HandleBranch_capped [of t candidateTxID opts branchID aw]
  by blast

theorem forwardPropagate_attachment_cap_witness:
  "maxAttachmentGoF capped_tangle 10 < gof_High
   \<and> BranchTransFunc defaultOpts (NewBranchID 10) 0.6 = gof_High
   \<and> forwardPropagateBranchGoFToTxs defaultOpts 10 (NewBranchID 10) gof_High capped_tangle walker_New
        = (capped_tangle, walker_New, [])
   \<and> map_of (LedgerState_TransactionMetadata
               (fst (HandleBranch defaultOpts capped_tangle (NewBranchID 10) 0.6))) 10
        = Some \<lparr>tx_gradeOfFinality = gof_Medium, tx_BranchID = NewBranchID 10\<rparr>
   \<and> TransactionConfirmed 10
        \<notin> set (fst (snd (HandleBranch defaultOpts capped_tangle (NewBranchID 10) 0.6)))"
proof -
  have h: "maxAttachmentGoF capped_tangle 10 < gof_High"
    by (simp add: maxAttachmentGoF_def capped_tangle_def example_defs)
  have g: "BranchTransFunc defaultOpts (NewBranchID 10) 0.6 = gof_High"
    by (simp add: example_defs)
  have tx: "map_of (LedgerState_TransactionMetadata capped_tangle) 10
              = Some \<lparr>tx_gradeOfFinality = gof_Medium, tx_BranchID = NewBranchID 10\<rparr>"
    by (simp add: capped_tangle_def example_tangle_def)
  from h g have h': "maxAttachmentGoF capped_tangle 10 < BranchTransFunc defaultOpts (NewBranchID 10) 0.6"
    by simp
  show ?thesis
    using forwardPropagate_attachment_cap [of capped_tangle 10 gof_High defaultOpts "NewBranchID 10"
        walker_New "NewBranchID 10" "0.6"] h h' g tx
    by simp
qed

text \<open>
  C7. A dequeued transaction whose recorded branch is not the branch being propagated is
  left as it is: the step returns the tangle unchanged, the walker unchanged and no
  event, whatever the candidate grade and whatever its attachments carry. Over a whole
  \<open>HandleBranch\<close> call such a transaction keeps its metadata and gets no
  \<open>TransactionConfirmed\<close> event, also when it spends an output of a transaction the call
  raises.
\<close>

theorem forwardPropagate_branch_boundary:
  assumes "map_of (LedgerState_TransactionMetadata t) candidateTxID = Some transactionMetadata"
    and "tx_BranchID transactionMetadata \<noteq> candidateBranchID"
  shows "forwardPropagateBranchGoFToTxs opts candidateTxID candidateBranchID newGradeOfFinality t w
           = (t, w, [])
    \<and> map_of (LedgerState_TransactionMetadata (fst (HandleBranch opts t candidateBranchID aw)))
          candidateTxID = Some transactionMetadata
    \<and> TransactionConfirmed candidateTxID
         \<notin> set (fst (snd (HandleBranch opts t candidateBranchID aw)))"
  using forwardPropagate_other_branch [OF assms] HandleBranch_other_branch [OF assms]
  by simp

theorem forwardPropagate_branch_boundary_witness:
  "map_of (LedgerState_TransactionMetadata example_tangle) 11
     = Some \<lparr>tx_gradeOfFinality = gof_None, tx_BranchID = NewBranchID 11\<rparr>
   \<and> tx_BranchID \<lparr>tx_gradeOfFinality = gof_None, tx_BranchID = NewBranchID 11\<rparr> \<noteq> NewBranchID 10
   \<and> LedgerState_Consumers example_tangle 100 = [11]
   \<and> forwardPropagateBranchGoFToTxs defaultOpts 11 (NewBranchID 10) gof_High example_tangle
        \<lparr>stack = [], pushedElements = [11, 10]\<rparr>
      = (example_tangle, \<lparr>stack = [], pushedElements = [11, 10]\<rparr>, [])
   \<and> map_of (LedgerState_TransactionMetadata
               (fst (HandleBranch defaultOpts example_tangle (NewBranchID 10) 0.6))) 11
        = Some \<lparr>tx_gradeOfFinality = gof_None, tx_BranchID = NewBranchID 11\<rparr>
   \<and> TransactionConfirmed 11
        \<notin> set (fst (snd (HandleBranch defaultOpts example_tangle (NewBranchID 10) 0.6)))"
proof -
  have h1: "map_of (LedgerState_TransactionMetadata example_tangle) 11
     = Some \<lparr>tx_gradeOfFinality = gof_None, tx_BranchID = NewBranchID 11\<rparr>"
    by (simp add: example_tangle_def)
  have h2: "tx_BranchID \<lparr>tx_gradeOfFinality = gof_None, tx_BranchID = NewBranchID 11\<rparr> \<noteq> NewBranchID 10"
    by simp
  have c: "LedgerState_Consumers example_tangle 100 = [11]"
    by (simp add: example_tangle_def)
  show ?thesis
    using h1 h2 c forwardPropagate_branch_boundary [OF h1 h2, of defaultOpts gof_High
        "\<lparr>stack = [], pushedElements = [11, 10]\<rparr>" "0.6"]
    by simp
qed

end
